theory Spec2Isabelle
  imports Main
begin

section \<open>The version synchronizer of vec-utils (update_version.py)\<close>

text \<open>
  The script holds one version string and a fixed list of three paths. For each path,
  in order, it reads the file in text mode, overwrites the list entry at index 2 and
  writes all lines back with \<^verbatim>\<open>newline="\n"\<close>, then prints a confirmation.

  A file on disk is the sequence of its characters. The model works on text whose
  decoding on the read side and UTF-8 encoding on the write side give back the same
  characters (ASCII, or UTF-8 content under a UTF-8 locale), so both codecs are the
  identity and only the newline handling of the text layer is written out.
  The file system is a map from paths to contents; a path outside its domain does
  not exist. Permissions and failures of the disk itself are outside the model.
\<close>

subsection \<open>Characters and constants\<close>

definition LF :: char where
  "LF = CHR 0x0A"

definition CR :: char where
  "CR = CHR 0x0D"

definition DQ :: char where
  "DQ = CHR 0x22"

type_synonym path = string

text \<open>\<^verbatim>\<open>VERSION = "0.2.5"\<close>\<close>

definition VERSION :: string where
  "VERSION = ''0.2.5''"

text \<open>The list \<^verbatim>\<open>locations\<close> of the script, in its order.\<close>

definition locations :: "path list" where
  "locations =
     [''./vec-utils/Cargo.toml'',
      ''./vec-utils-py/Cargo.toml'',
      ''./vec-utils-py/pyproject.toml'']"

text \<open>The f-string \<^verbatim>\<open>f'version = "{VERSION}"\n'\<close>.\<close>

definition version_line :: string where
  "version_line = ''version = '' @ [DQ] @ VERSION @ [DQ] @ [LF]"

text \<open>The f-string \<^verbatim>\<open>f"{i} version updated"\<close>.\<close>

definition confirmation :: "path \<Rightarrow> string" where
  "confirmation i = i @ '' version updated''"

subsection \<open>The text layer: reading\<close>

text \<open>
  \<^verbatim>\<open>open(i, "r")\<close> leaves \<^verbatim>\<open>newline\<close> at \<^verbatim>\<open>None\<close>: universal newlines.
  On input, a carriage return followed by a line feed becomes one line feed, and any
  other carriage return becomes a line feed as well.
\<close>

fun translate_newlines :: "string \<Rightarrow> string" where
  "translate_newlines [] = []"
| "translate_newlines [c] = (if c = CR then [LF] else [c])"
| "translate_newlines (c # d # cs) =
     (if c = CR \<and> d = LF then LF # translate_newlines cs
      else if c = CR then LF # translate_newlines (d # cs)
      else c # translate_newlines (d # cs))"

text \<open>
  \<^verbatim>\<open>file.readlines()\<close> on the translated text: a line ends after each line feed and
  keeps it; what follows the last line feed, if anything, is a final line without one.
\<close>

fun readlines :: "string \<Rightarrow> string list" where
  "readlines [] = []"
| "readlines (c # cs) =
     (if c = LF then [LF] # readlines cs
      else (case readlines cs of
              [] \<Rightarrow> [[c]]
            | l # ls \<Rightarrow> (c # l) # ls))"

subsection \<open>The world: files, standard output, and the order of effects\<close>

datatype py_error = FileNotFoundError | IndexError

text \<open>
  \<open>effects\<close> is a ghost log: it records every write of a file and every print, in
  program order, so that the order of the two kinds of effect can be stated.
\<close>

datatype effect = Wrote path | Printed string

record world =
  files :: "path \<rightharpoonup> string"
  stdout :: string
  effects :: "effect list"

text \<open>\<^verbatim>\<open>with open(i, "r") as file: data = file.readlines()\<close>\<close>

definition read_data :: "path \<Rightarrow> world \<Rightarrow> py_error + string list" where
  "read_data i w =
     (case files w i of
        None \<Rightarrow> Inl FileNotFoundError
      | Some content \<Rightarrow> Inr (readlines (translate_newlines content)))"

text \<open>
  \<^verbatim>\<open>data[k] = v\<close> for a non-negative \<open>k\<close>: Python raises IndexError when \<open>k\<close> is
  not below the length of the list.
\<close>

definition setitem :: "'a list \<Rightarrow> nat \<Rightarrow> 'a \<Rightarrow> py_error + 'a list" where
  "setitem xs k v = (if k < length xs then Inr (xs[k := v]) else Inl IndexError)"

text \<open>
  \<^verbatim>\<open>with open(i, "w", encoding="utf-8", newline="\n") as file: file.writelines(data)\<close>:
  the file is truncated and receives the lines one after the other; with
  \<^verbatim>\<open>newline="\n"\<close> no character is translated on output.
\<close>

definition write_data :: "path \<Rightarrow> string list \<Rightarrow> world \<Rightarrow> world" where
  "write_data i data w =
     w\<lparr>files := (files w)(i \<mapsto> concat data), effects := effects w @ [Wrote i]\<rparr>"

text \<open>\<^verbatim>\<open>print(s)\<close> writes \<open>s\<close> and a line feed to standard output.\<close>

definition print :: "string \<Rightarrow> world \<Rightarrow> world" where
  "print s w = w\<lparr>stdout := stdout w @ s @ [LF], effects := effects w @ [Printed s]\<rparr>"

subsection \<open>The loop\<close>

text \<open>The body of the loop for one path \<open>i\<close>.\<close>

definition sync_target :: "path \<Rightarrow> world \<Rightarrow> py_error + world" where
  "sync_target i w =
     (case read_data i w of
        Inl e \<Rightarrow> Inl e
      | Inr data \<Rightarrow>
          (case setitem data 2 version_line of
             Inl e \<Rightarrow> Inl e
           | Inr data' \<Rightarrow> Inr (print (confirmation i) (write_data i data' w))))"

text \<open>
  \<^verbatim>\<open>for i in locations: ...\<close>: nothing catches an exception, so the first one ends
  the run. The result is the exception, if any, and the world as the run left it.
\<close>

fun for_loop :: "path list \<Rightarrow> world \<Rightarrow> py_error option \<times> world" where
  "for_loop [] w = (None, w)"
| "for_loop (i # rest) w =
     (case sync_target i w of
        Inl e \<Rightarrow> (Some e, w)
      | Inr w' \<Rightarrow> for_loop rest w')"

definition synchronize :: "world \<Rightarrow> py_error option \<times> world" where
  "synchronize w = for_loop locations w"

subsection \<open>Observations on file contents\<close>

text \<open>The lines of a file as the script reads them.\<close>

definition text_lines :: "string \<Rightarrow> string list" where
  "text_lines content = readlines (translate_newlines content)"

text \<open>
  The lines of a file as they are on disk, each with its own terminator: a line ends
  after a line feed, after a carriage return and line feed, or after a carriage
  return alone. Nothing is translated.
\<close>

fun disk_lines :: "string \<Rightarrow> string list" where
  "disk_lines [] = []"
| "disk_lines [c] = [[c]]"
| "disk_lines (c # d # cs) =
     (if c = LF then [LF] # disk_lines (d # cs)
      else if c = CR \<and> d = LF then [CR, LF] # disk_lines cs
      else if c = CR then [CR] # disk_lines (d # cs)
      else (case disk_lines (d # cs) of
              [] \<Rightarrow> [[c]]
            | l # ls \<Rightarrow> (c # l) # ls))"


definition line_terminator :: "string \<Rightarrow> string" where
  "line_terminator l = dropWhile (\<lambda>c. c \<noteq> CR \<and> c \<noteq> LF) l"

text \<open>What the script leaves in a file whose content was \<open>content\<close>.\<close>

definition sync_content :: "string \<Rightarrow> string" where
  "sync_content content = concat ((text_lines content)[2 := version_line])"

text \<open>
  What a run that reaches the end of the list \<open>ps\<close> leaves: every file of the list
  rewritten, one confirmation per path on standard output, and a write followed by a
  print per path in the log.
\<close>

definition sync_files :: "path list \<Rightarrow> (path \<rightharpoonup> string) \<Rightarrow> (path \<rightharpoonup> string)" where
  "sync_files ps fs = (\<lambda>p. if p \<in> set ps then map_option sync_content (fs p) else fs p)"

definition all_synced :: "path list \<Rightarrow> world \<Rightarrow> world" where
  "all_synced ps w =
     w\<lparr>files := sync_files ps (files w),
       stdout := stdout w @ concat (map (\<lambda>p. confirmation p @ [LF]) ps),
       effects := effects w @ concat (map (\<lambda>p. [Wrote p, Printed (confirmation p)]) ps)\<rparr>"

subsection \<open>Well-formed line lists\<close>

text \<open>
  A terminated line is one line feed preceded by characters that are not line feeds.
  A list of lines is well formed when every line but the last is terminated and the
  last is not empty and has no line feed before its last character. These are the
  lists that \<open>readlines\<close> returns, and the ones it reads back unchanged.
\<close>

definition terminated :: "string \<Rightarrow> bool" where
  "terminated l = (l \<noteq> [] \<and> last l = LF \<and> LF \<notin> set (butlast l))"

fun wf_lines :: "string list \<Rightarrow> bool" where
  "wf_lines [] = True"
| "wf_lines [l] = (l \<noteq> [] \<and> LF \<notin> set (butlast l))"
| "wf_lines (l # m # ls) = (terminated l \<and> wf_lines (m # ls))"

subsection \<open>Concrete files\<close>

text \<open>
  The four lines of the manifest of the specification's scenario, before and after
  the run, a small file whose four lines all end in a carriage return and a line
  feed, and a file of two lines.
\<close>

definition scenario_before :: "string list" where
  "scenario_before =
     [''[package]'' @ [LF],
      ''name = '' @ [DQ] @ ''x'' @ [DQ] @ [LF],
      ''version = '' @ [DQ] @ ''0.2.4'' @ [DQ] @ [LF],
      ''edition = '' @ [DQ] @ ''2021'' @ [DQ] @ [LF]]"

definition scenario_after :: "string list" where
  "scenario_after =
     [''[package]'' @ [LF],
      ''name = '' @ [DQ] @ ''x'' @ [DQ] @ [LF],
      ''version = '' @ [DQ] @ ''0.2.5'' @ [DQ] @ [LF],
      ''edition = '' @ [DQ] @ ''2021'' @ [DQ] @ [LF]]"

definition crlf_content :: string where
  "crlf_content = ''a'' @ [CR, LF] @ ''b'' @ [CR, LF] @ ''c'' @ [CR, LF] @ ''d'' @ [CR, LF]"


text \<open>A file system in which the three targets exist and have four lines each.\<close>

definition three_manifests :: "path \<rightharpoonup> string" where
  "three_manifests =
     [''./vec-utils/Cargo.toml'' \<mapsto> concat scenario_before,
      ''./vec-utils-py/Cargo.toml'' \<mapsto> crlf_content,
      ''./vec-utils-py/pyproject.toml'' \<mapsto> concat scenario_before]"

section \<open>Properties of the text layer\<close>

lemmas char_defs = LF_def CR_def DQ_def

lemma LF_neq_CR [simp]: "LF \<noteq> CR" "CR \<noteq> LF"
  by (simp_all add: LF_def CR_def)

lemma translate_newlines_no_CR: "CR \<notin> set (translate_newlines s)"
  by (induction s rule: translate_newlines.induct) auto

lemma translate_newlines_id: "CR \<notin> set s \<Longrightarrow> translate_newlines s = s"
  by (induction s rule: translate_newlines.induct) auto

lemma translate_newlines_Cons: "c \<noteq> CR \<Longrightarrow> translate_newlines (c # s) = c # translate_newlines s"
  by (cases s) auto

lemma readlines_eq_Nil [simp]: "readlines s = [] \<longleftrightarrow> s = []"
  by (cases s) (auto split: list.splits)

lemma concat_readlines: "concat (readlines s) = s"
  by (induction s) (auto split: list.splits)

lemma readlines_translate_newlines: "readlines (translate_newlines s) = map translate_newlines (disk_lines s)"
proof (induction s rule: disk_lines.induct)
  case 1
  then show ?case by simp
next
  case (2 c)
  then show ?case by simp
next
  case (3 c d cs)
  then show ?case 
    by (auto split: list.splits simp: translate_newlines_Cons)
qed

lemma disk_lines_no_CR: "CR \<notin> set s \<Longrightarrow> disk_lines s = readlines s"
  by (induction s rule: disk_lines.induct) (auto split: list.splits)

lemma wf_lines_readlines: "wf_lines (readlines s)"
proof (induction s)
  case Nil
  then show ?case by simp
next
  case (Cons c cs)
  show ?case
  proof (cases "readlines cs")
    case Nil
    then show ?thesis by (simp add: terminated_def)
  next
    case (Cons l ls)
    with Cons.IH show ?thesis 
      by (cases ls) (auto simp: terminated_def)
  qed
qed

lemma readlines_terminated: "terminated l \<Longrightarrow> readlines (l @ t) = l # readlines t"
proof (induction l)
  case Nil
  then show ?case by (simp add: terminated_def)
next
  case (Cons c l)
  then show ?case by (cases l) (auto simp: terminated_def split: if_splits)
qed

lemma readlines_single: "l \<noteq> [] \<Longrightarrow> LF \<notin> set (butlast l) \<Longrightarrow> readlines l = [l]"
proof (induction l)
  case Nil
  then show ?case by simp
next
  case (Cons c l)
  then show ?case by (cases l) (auto split: if_splits)
qed

lemma readlines_concat: "wf_lines ls \<Longrightarrow> readlines (concat ls) = ls"
  by (induction ls rule: wf_lines.induct) (simp_all add: readlines_single readlines_terminated)

lemma wf_lines_update: "wf_lines ls \<Longrightarrow> terminated v \<Longrightarrow> wf_lines (ls[k := v])"
proof (induction ls arbitrary: k rule: wf_lines.induct)
  case 1
  then show ?case by simp
next
  case (2 l)
  then show ?case by (cases k) (auto simp: terminated_def)
next
  case (3 l m ls)
  show ?case
  proof (cases k)
    case 0
    with 3 show ?thesis by simp
  next
    case (Suc j)
    from 3 have "wf_lines ((m # ls)[j := v])" by simp
    moreover obtain m' ls' where "(m # ls)[j := v] = m' # ls'"
      by (cases j) auto
    ultimately show ?thesis using 3 Suc by simp
  qed
qed

lemma terminated_version_line: "terminated version_line"
  by (simp add: terminated_def version_line_def VERSION_def LF_def DQ_def)

subsection \<open>Content and terminator of the lines on disk\<close>



lemma disk_lines_eq_Nil [simp]: "disk_lines s = [] \<longleftrightarrow> s = []"
  by (induction s rule: disk_lines.induct) (auto split: list.splits)

lemma line_terminator_Nil: "line_terminator [] = []"
  by (simp add: line_terminator_def)

lemma line_terminator_Cons:
  "line_terminator (c # l) = (if c \<noteq> CR \<and> c \<noteq> LF then line_terminator l else c # l)"
  by (simp add: line_terminator_def)

lemma line_terminator_disk_lines:
  "l \<in> set (disk_lines s) \<Longrightarrow> line_terminator l \<in> {[], [LF], [CR], [CR, LF]}"
proof (induction s arbitrary: l rule: disk_lines.induct)
  case 1
  then show ?case by simp
next
  case (2 c)
  then show ?case by (simp add: line_terminator_Cons line_terminator_Nil)
next
  case (3 c d cs)
  consider (lf) "c = LF" | (crlf) "c = CR" "d = LF" | (cr) "c = CR" "d \<noteq> LF"
    | (other) "c \<noteq> LF" "c \<noteq> CR"
    by blast
  then show ?case
  proof cases
    case lf
    with 3 show ?thesis
      by (auto simp: line_terminator_Cons line_terminator_Nil)
  next
    case crlf
    with 3 show ?thesis
      by (auto simp: line_terminator_Cons line_terminator_Nil)
  next
    case cr
    with 3 show ?thesis
      by (auto simp: line_terminator_Cons line_terminator_Nil)
  next
    case other
    obtain x xs where x: "disk_lines (d # cs) = x # xs"
      by (cases "disk_lines (d # cs)") simp_all
    with other "3.prems" have "l = c # x \<or> l \<in> set xs"
      by simp
    then show ?thesis
    proof
      assume "l = c # x"
      moreover have "line_terminator x \<in> {[], [LF], [CR], [CR, LF]}"
        using "3.IH"(4) [of x] other x by simp
      ultimately show ?thesis
        using other by (simp add: line_terminator_Cons)
    next
      assume "l \<in> set xs"
      then show ?thesis
        using "3.IH"(4) [of l] other x by simp
    qed
  qed
qed


lemma wf_lines_butlast_terminated:
  "wf_lines ls \<Longrightarrow> l \<in> set (butlast ls) \<Longrightarrow> terminated l"
  by (induction ls rule: wf_lines.induct) (auto split: if_splits)

lemma line_terminator_eq_Nil: "line_terminator l = [] \<longleftrightarrow> CR \<notin> set l \<and> LF \<notin> set l"
  by (auto simp: line_terminator_def)

lemma line_terminator_no_CR:
  assumes "l \<in> set (disk_lines s)" and "CR \<notin> set l"
  shows "line_terminator l = [] \<or> line_terminator l = [LF]"
proof -
  have "set (line_terminator l) \<subseteq> set l"
    unfolding line_terminator_def by (auto dest: set_dropWhileD)
  with assms(2) have "CR \<notin> set (line_terminator l)"
    by auto
  with line_terminator_disk_lines [OF assms(1)] show ?thesis
    by auto
qed

section \<open>Properties of one synchronization\<close>

lemma length_text_lines: "length (text_lines c) = length (disk_lines c)"
  by (simp add: text_lines_def readlines_translate_newlines)


lemma wf_lines_synced: "wf_lines ((text_lines c)[k := version_line])"
  by (simp add: text_lines_def wf_lines_readlines wf_lines_update terminated_version_line)

lemma version_line_no_CR: "CR \<notin> set version_line"
  by (simp add: version_line_def VERSION_def LF_def DQ_def CR_def)

lemma sync_content_no_CR: "CR \<notin> set (sync_content c)"
proof -
  have "set ((text_lines c)[2 := version_line]) \<subseteq> insert version_line (set (text_lines c))"
    by (rule set_update_subset_insert)
  moreover have "\<forall>l \<in> set (text_lines c). CR \<notin> set l"
  proof
    fix l assume "l \<in> set (text_lines c)"
    then have "set l \<subseteq> set (concat (text_lines c))" by auto
    then show "CR \<notin> set l"
      using translate_newlines_no_CR [of c] by (auto simp: text_lines_def concat_readlines)
  qed
  ultimately show ?thesis
    using version_line_no_CR by (auto simp: sync_content_def)
qed

lemma readlines_sync_content: "readlines (sync_content c) = (text_lines c)[2 := version_line]"
  by (simp add: sync_content_def readlines_concat wf_lines_synced)

lemma text_lines_sync_content: "text_lines (sync_content c) = (text_lines c)[2 := version_line]"
  using readlines_sync_content [of c]
  by (simp add: text_lines_def [of "sync_content c"] translate_newlines_id sync_content_no_CR)

lemma disk_lines_sync_content: "disk_lines (sync_content c) = (text_lines c)[2 := version_line]"
  by (simp add: disk_lines_no_CR sync_content_no_CR readlines_sync_content)

lemma sync_content_idem: "sync_content (sync_content c) = sync_content c"
  by (simp add: sync_content_def [of "sync_content c"] text_lines_sync_content)
     (simp add: sync_content_def)

lemma sync_target_ok:
  assumes "files w i = Some c" and "3 \<le> length (text_lines c)"
  shows "sync_target i w =
           Inr (w\<lparr>files := (files w)(i \<mapsto> sync_content c),
                  stdout := stdout w @ confirmation i @ [LF],
                  effects := effects w @ [Wrote i, Printed (confirmation i)]\<rparr>)"
  using assms
  by (simp add: sync_target_def read_data_def setitem_def write_data_def print_def
      sync_content_def text_lines_def)

lemma sync_target_missing: "files w i = None \<Longrightarrow> sync_target i w = Inl FileNotFoundError"
  by (simp add: sync_target_def read_data_def)

lemma sync_target_short:
  "files w i = Some c \<Longrightarrow> length (text_lines c) < 3 \<Longrightarrow> sync_target i w = Inl IndexError"
  by (simp add: sync_target_def read_data_def setitem_def text_lines_def)

lemma sync_target_Inr_iff:
  "sync_target i w = Inr w' \<longleftrightarrow>
     (\<exists>c. files w i = Some c \<and> 3 \<le> length (text_lines c) \<and>
          w' = w\<lparr>files := (files w)(i \<mapsto> sync_content c),
                  stdout := stdout w @ confirmation i @ [LF],
                  effects := effects w @ [Wrote i, Printed (confirmation i)]\<rparr>)"
proof (cases "files w i")
  case None
  then show ?thesis by (simp add: sync_target_missing)
next
  case (Some c)
  show ?thesis
  proof (cases "3 \<le> length (text_lines c)")
    case True
    with Some show ?thesis by (auto simp: sync_target_ok)
  next
    case False
    with Some show ?thesis by (simp add: sync_target_short)
  qed
qed

section \<open>Properties of the loop\<close>

lemma length_text_lines_sync_content: "length (text_lines (sync_content c)) = length (text_lines c)"
  by (simp add: text_lines_sync_content)

lemma all_synced_Nil: "all_synced [] w = w"
  by (simp add: all_synced_def sync_files_def)

lemma all_synced_Cons:
  assumes "files w i = Some c"
  shows "all_synced rest
           (w\<lparr>files := (files w)(i \<mapsto> sync_content c),
              stdout := stdout w @ confirmation i @ [LF],
              effects := effects w @ [Wrote i, Printed (confirmation i)]\<rparr>)
         = all_synced (i # rest) w"
proof -
  have "sync_files rest ((files w)(i \<mapsto> sync_content c)) = sync_files (i # rest) (files w)"
    using assms by (auto simp: sync_files_def sync_content_idem)
  then show ?thesis
    by (simp add: all_synced_def)
qed

lemma for_loop_success:
  "(\<forall>p \<in> set ps. \<exists>c. files w p = Some c \<and> 3 \<le> length (text_lines c)) \<Longrightarrow>
   for_loop ps w = (None, all_synced ps w)"
proof (induction ps arbitrary: w)
  case Nil
  then show ?case by (simp add: all_synced_Nil)
next
  case (Cons i rest)
  then obtain c where c: "files w i = Some c" "3 \<le> length (text_lines c)"
    by auto
  let ?w1 = "w\<lparr>files := (files w)(i \<mapsto> sync_content c),
              stdout := stdout w @ confirmation i @ [LF],
              effects := effects w @ [Wrote i, Printed (confirmation i)]\<rparr>"
  have step: "sync_target i w = Inr ?w1"
    using c by (rule sync_target_ok)
  have "\<forall>p \<in> set rest. \<exists>c'. files ?w1 p = Some c' \<and> 3 \<le> length (text_lines c')"
    using Cons.prems c by (auto simp: length_text_lines_sync_content)
  then have "for_loop rest ?w1 = (None, all_synced rest ?w1)"
    by (rule Cons.IH)
  then show ?case
    using step c(1) by (simp add: all_synced_Cons)
qed

lemma for_loop_None_ready:
  "for_loop ps w = (None, w') \<Longrightarrow>
   \<forall>p \<in> set ps. \<exists>c. files w p = Some c \<and> 3 \<le> length (text_lines c)"
proof (induction ps arbitrary: w)
  case Nil
  then show ?case by simp
next
  case (Cons i rest)
  then obtain w1 where w1: "sync_target i w = Inr w1" "for_loop rest w1 = (None, w')"
    by (auto split: sum.splits)
  then obtain c where c: "files w i = Some c" "3 \<le> length (text_lines c)"
    "files w1 = (files w)(i \<mapsto> sync_content c)"
    by (auto simp: sync_target_Inr_iff)
  have "\<exists>c'. files w p = Some c' \<and> 3 \<le> length (text_lines c')" if "p \<in> set rest" for p
  proof (cases "p = i")
    case True
    with c show ?thesis by simp
  next
    case False
    with Cons.IH [OF w1(2)] that c(3) show ?thesis by auto
  qed
  with c show ?case by auto
qed

lemma for_loop_None_iff:
  "for_loop ps w = (None, w') \<longleftrightarrow>
     (\<forall>p \<in> set ps. \<exists>c. files w p = Some c \<and> 3 \<le> length (text_lines c)) \<and> w' = all_synced ps w"
  using for_loop_success [of ps w] for_loop_None_ready [of ps w w'] by auto

lemma for_loop_append:
  "for_loop pre w = (None, w1) \<Longrightarrow> for_loop (pre @ rest) w = for_loop rest w1"
  by (induction pre arbitrary: w) (auto split: sum.splits)

lemma distinct_locations: "distinct locations"
  by (simp add: locations_def)



lemma three_manifests_ready:
  "\<forall>p \<in> set locations. \<exists>c. three_manifests p = Some c \<and> 3 \<le> length (text_lines c)"
  by (simp add: locations_def three_manifests_def scenario_before_def crlf_content_def
      text_lines_def char_defs)

section \<open>The claims\<close>






text \<open>
  Claim C3. A file whose lines are \<^verbatim>\<open>[package]\<close>, \<^verbatim>\<open>name = "x"\<close>,
  \<^verbatim>\<open>version = "0.2.4"\<close> and \<^verbatim>\<open>edition = "2021"\<close>, each ended by a
  line feed, is read as these four lines; with the version constant \<^verbatim>\<open>0.2.5\<close>
  the pass over it succeeds, the file then reads as the same lines with
  \<^verbatim>\<open>version = "0.2.5"\<close> third, and standard output has gained the line
  \<open>i version updated\<close> for its path \<open>i\<close>.
\<close>

theorem scenario_manifest:
  assumes "files w i = Some (concat scenario_before)"
  shows "text_lines (concat scenario_before) = scenario_before \<and>
         (\<exists>w'. sync_target i w = Inr w' \<and>
            files w' i = Some (concat scenario_after) \<and>
            text_lines (concat scenario_after) = scenario_after \<and>
            stdout w' = stdout w @ i @ '' version updated'' @ [CHR 0x0A])"
proof -
  have before: "text_lines (concat scenario_before) = scenario_before"
    by (simp add: text_lines_def scenario_before_def char_defs)
  have after: "text_lines (concat scenario_after) = scenario_after"
    by (simp add: text_lines_def scenario_after_def char_defs)
  have content: "sync_content (concat scenario_before) = concat scenario_after"
    unfolding sync_content_def before
    by (simp add: scenario_before_def scenario_after_def version_line_def VERSION_def)
  have "3 \<le> length (text_lines (concat scenario_before))"
    unfolding before by (simp add: scenario_before_def)
  with assms have "sync_target i w =
      Inr (w\<lparr>files := (files w)(i \<mapsto> sync_content (concat scenario_before)),
             stdout := stdout w @ confirmation i @ [LF],
             effects := effects w @ [Wrote i, Printed (confirmation i)]\<rparr>)"
    by (rule sync_target_ok)
  then show ?thesis
    using before after content by (simp add: confirmation_def LF_def)
qed

theorem scenario_manifest_witness:
  "files \<lparr>files = [''./vec-utils/Cargo.toml'' \<mapsto> concat scenario_before], stdout = [], effects = []\<rparr>
      ''./vec-utils/Cargo.toml'' = Some (concat scenario_before) \<and>
   text_lines (concat scenario_before) = scenario_before \<and>
   (\<exists>w'. sync_target ''./vec-utils/Cargo.toml''
            \<lparr>files = [''./vec-utils/Cargo.toml'' \<mapsto> concat scenario_before], stdout = [], effects = []\<rparr>
          = Inr w' \<and>
      files w' ''./vec-utils/Cargo.toml'' = Some (concat scenario_after) \<and>
      text_lines (concat scenario_after) = scenario_after \<and>
      stdout w' = ''./vec-utils/Cargo.toml version updated'' @ [CHR 0x0A])"
proof -
  have a: "files \<lparr>files = [''./vec-utils/Cargo.toml'' \<mapsto> concat scenario_before], stdout = [], effects = []\<rparr>
      ''./vec-utils/Cargo.toml'' = Some (concat scenario_before)"
    by simp
  from scenario_manifest [OF a] a show ?thesis
    by simp
qed







text \<open>
  Claim C7. Let the pass over target \<open>k\<close> fail after the loop went through the targets
  \<open>pre\<close> before it. Then the run ends with that exception; every target of \<open>pre\<close>
  holds its rewritten content, with the version line at index 2, and its confirmation
  is on standard output; \<open>k\<close> and every target after it hold what they held before
  the run.
\<close>

theorem no_transaction_across_targets:
  assumes "locations = pre @ k # post"
    and "for_loop pre w = (None, w1)"
    and "sync_target k w1 = Inl e"
  shows "synchronize w = (Some e, w1) \<and>
         (\<forall>p \<in> set pre. \<exists>c. files w p = Some c \<and> files w1 p = Some (sync_content c) \<and>
              disk_lines (sync_content c) ! 2 = version_line) \<and>
         stdout w1 = stdout w @ concat (map (\<lambda>p. p @ '' version updated'' @ [LF]) pre) \<and>
         (\<forall>p \<in> set (k # post). files w1 p = files w p)"
proof -
  from assms(2) have ready: "\<forall>p \<in> set pre. \<exists>c. files w p = Some c \<and> 3 \<le> length (text_lines c)"
    and w1: "w1 = all_synced pre w"
    by (simp_all add: for_loop_None_iff)
  have run: "synchronize w = (Some e, w1)"
    unfolding synchronize_def assms(1) using assms(2,3) by (simp add: for_loop_append)
  have before: "\<exists>c. files w p = Some c \<and> files w1 p = Some (sync_content c) \<and>
      disk_lines (sync_content c) ! 2 = version_line" if "p \<in> set pre" for p
  proof -
    from ready that obtain c where c: "files w p = Some c" "3 \<le> length (text_lines c)"
      by blast
    then have "disk_lines (sync_content c) ! 2 = version_line"
      by (simp add: disk_lines_sync_content)
    with c that show ?thesis
      by (simp add: w1 all_synced_def sync_files_def)
  qed
  have out: "stdout w1 = stdout w @ concat (map (\<lambda>p. p @ '' version updated'' @ [LF]) pre)"
    by (simp add: w1 all_synced_def confirmation_def)
  have after: "files w1 p = files w p" if "p \<in> set (k # post)" for p
  proof -
    have "distinct (pre @ k # post)"
      using distinct_locations assms(1) by simp
    with that have "p \<notin> set pre"
      by auto
    then show ?thesis
      by (simp add: w1 all_synced_def sync_files_def)
  qed
  from run before out after show ?thesis
    by blast
qed

theorem no_transaction_across_targets_witness:
  "locations = [''./vec-utils/Cargo.toml''] @ ''./vec-utils-py/Cargo.toml'' # [''./vec-utils-py/pyproject.toml''] \<and>
   for_loop [''./vec-utils/Cargo.toml'']
      \<lparr>files = [''./vec-utils/Cargo.toml'' \<mapsto> concat scenario_before,
                ''./vec-utils-py/pyproject.toml'' \<mapsto> crlf_content],
       stdout = [], effects = []\<rparr>
     = (None,
        \<lparr>files = [''./vec-utils/Cargo.toml'' \<mapsto> concat scenario_after,
                  ''./vec-utils-py/pyproject.toml'' \<mapsto> crlf_content],
         stdout = ''./vec-utils/Cargo.toml version updated'' @ [LF],
         effects = [Wrote ''./vec-utils/Cargo.toml'', Printed ''./vec-utils/Cargo.toml version updated'']\<rparr>) \<and>
   sync_target ''./vec-utils-py/Cargo.toml''
      \<lparr>files = [''./vec-utils/Cargo.toml'' \<mapsto> concat scenario_after,
                ''./vec-utils-py/pyproject.toml'' \<mapsto> crlf_content],
       stdout = ''./vec-utils/Cargo.toml version updated'' @ [LF],
       effects = [Wrote ''./vec-utils/Cargo.toml'', Printed ''./vec-utils/Cargo.toml version updated'']\<rparr>
     = Inl FileNotFoundError \<and>
   synchronize
      \<lparr>files = [''./vec-utils/Cargo.toml'' \<mapsto> concat scenario_before,
                ''./vec-utils-py/pyproject.toml'' \<mapsto> crlf_content],
       stdout = [], effects = []\<rparr>
     = (Some FileNotFoundError,
        \<lparr>files = [''./vec-utils/Cargo.toml'' \<mapsto> concat scenario_after,
                  ''./vec-utils-py/pyproject.toml'' \<mapsto> crlf_content],
         stdout = ''./vec-utils/Cargo.toml version updated'' @ [LF],
         effects = [Wrote ''./vec-utils/Cargo.toml'', Printed ''./vec-utils/Cargo.toml version updated'']\<rparr>)"
proof -
  let ?w = "\<lparr>files = [''./vec-utils/Cargo.toml'' \<mapsto> concat scenario_before,
                ''./vec-utils-py/pyproject.toml'' \<mapsto> crlf_content],
       stdout = [], effects = []\<rparr>"
  let ?w1 = "\<lparr>files = [''./vec-utils/Cargo.toml'' \<mapsto> concat scenario_after,
                  ''./vec-utils-py/pyproject.toml'' \<mapsto> crlf_content],
         stdout = ''./vec-utils/Cargo.toml version updated'' @ [LF],
         effects = [Wrote ''./vec-utils/Cargo.toml'', Printed ''./vec-utils/Cargo.toml version updated'']\<rparr>"
  have a: "locations = [''./vec-utils/Cargo.toml''] @ ''./vec-utils-py/Cargo.toml'' # [''./vec-utils-py/pyproject.toml'']"
    by (simp add: locations_def)
  have b: "for_loop [''./vec-utils/Cargo.toml''] ?w = (None, ?w1)"
    by (simp add: sync_target_def read_data_def setitem_def write_data_def print_def confirmation_def
      version_line_def VERSION_def char_defs scenario_before_def scenario_after_def fun_upd_twist)
  have c: "sync_target ''./vec-utils-py/Cargo.toml'' ?w1 = Inl FileNotFoundError"
    by (simp add: sync_target_missing)
  from no_transaction_across_targets [OF a b c] a b c show ?thesis
    by blast
qed

text \<open>
  Claim C8. A run that reaches the end of the list has added to standard output
  exactly three lines, one per target in list order, each the path followed by
  \<^verbatim>\<open> version updated\<close>; and in the order of effects each of these prints
  comes directly after the write of its own target.
\<close>

theorem successful_run_output:
  assumes "synchronize w = (None, w')"
  shows "stdout w' = stdout w @
           ''./vec-utils/Cargo.toml version updated'' @ [CHR 0x0A] @
           ''./vec-utils-py/Cargo.toml version updated'' @ [CHR 0x0A] @
           ''./vec-utils-py/pyproject.toml version updated'' @ [CHR 0x0A] \<and>
         effects w' = effects w @
           [Wrote ''./vec-utils/Cargo.toml'', Printed ''./vec-utils/Cargo.toml version updated'',
            Wrote ''./vec-utils-py/Cargo.toml'', Printed ''./vec-utils-py/Cargo.toml version updated'',
            Wrote ''./vec-utils-py/pyproject.toml'', Printed ''./vec-utils-py/pyproject.toml version updated'']"
proof -
  from assms have "w' = all_synced locations w"
    by (simp add: synchronize_def for_loop_None_iff)
  then show ?thesis
    by (simp add: all_synced_def locations_def confirmation_def LF_def)
qed

theorem successful_run_output_witness:
  "synchronize \<lparr>files = three_manifests, stdout = [], effects = []\<rparr>
     = (None, all_synced locations \<lparr>files = three_manifests, stdout = [], effects = []\<rparr>) \<and>
   stdout (all_synced locations \<lparr>files = three_manifests, stdout = [], effects = []\<rparr>) =
     ''./vec-utils/Cargo.toml version updated'' @ [CHR 0x0A] @
     ''./vec-utils-py/Cargo.toml version updated'' @ [CHR 0x0A] @
     ''./vec-utils-py/pyproject.toml version updated'' @ [CHR 0x0A] \<and>
   effects (all_synced locations \<lparr>files = three_manifests, stdout = [], effects = []\<rparr>) =
     [Wrote ''./vec-utils/Cargo.toml'', Printed ''./vec-utils/Cargo.toml version updated'',
      Wrote ''./vec-utils-py/Cargo.toml'', Printed ''./vec-utils-py/Cargo.toml version updated'',
      Wrote ''./vec-utils-py/pyproject.toml'', Printed ''./vec-utils-py/pyproject.toml version updated'']"
proof -
  have a: "synchronize \<lparr>files = three_manifests, stdout = [], effects = []\<rparr>
     = (None, all_synced locations \<lparr>files = three_manifests, stdout = [], effects = []\<rparr>)"
    unfolding synchronize_def using three_manifests_ready by (intro for_loop_success) simp
  from successful_run_output [OF a] a show ?thesis
    by simp
qed

text \<open>
  Claim C9. When the pass over a target file succeeds, the lines it read hold no
  carriage return (the text layer translated every carriage return, alone or before
  a line feed, into a line feed), the file receives exactly the concatenation of the
  lines with the entry at index 2 replaced (nothing is translated back), and so the
  rewritten file holds no carriage return at all: on disk every line's terminator is
  a single line feed or, for the last line only, possibly absent.
\<close>

theorem synced_file_has_only_LF_terminators:
  assumes "files w i = Some old" and "sync_target i w = Inr w'"
  shows "read_data i w = Inr (text_lines old) \<and>
         (\<forall>l \<in> set (text_lines old). CR \<notin> set l) \<and>
         (\<exists>new. files w' i = Some new \<and>
            new = concat ((text_lines old)[2 := version_line]) \<and>
            CR \<notin> set new \<and>
            (\<forall>l \<in> set (disk_lines new). line_terminator l = [] \<or> line_terminator l = [LF]) \<and>
            (\<forall>l \<in> set (butlast (disk_lines new)). line_terminator l = [LF]))"
proof -
  from assms have new: "files w' i = Some (sync_content old)"
    by (auto simp: sync_target_Inr_iff)
  have read: "read_data i w = Inr (text_lines old)"
    using assms(1) by (simp add: read_data_def text_lines_def)
  have nocr_read: "\<forall>l \<in> set (text_lines old). CR \<notin> set l"
  proof
    fix l assume "l \<in> set (text_lines old)"
    then have "set l \<subseteq> set (concat (text_lines old))" by auto
    then show "CR \<notin> set l"
      using translate_newlines_no_CR [of old] by (auto simp: text_lines_def concat_readlines)
  qed
  have nocr: "CR \<notin> set (sync_content old)"
    by (rule sync_content_no_CR)
  have all: "line_terminator l = [] \<or> line_terminator l = [LF]"
    if "l \<in> set (disk_lines (sync_content old))" for l
  proof -
    from that have "set l \<subseteq> set (concat (disk_lines (sync_content old)))" by auto
    also have "concat (disk_lines (sync_content old)) = sync_content old"
      by (simp add: disk_lines_no_CR nocr concat_readlines)
    finally have "CR \<notin> set l" using nocr by auto
    with that show ?thesis by (rule line_terminator_no_CR)
  qed
  have inner: "line_terminator l = [LF]"
    if "l \<in> set (butlast (disk_lines (sync_content old)))" for l
  proof -
    have "wf_lines (disk_lines (sync_content old))"
      by (simp add: disk_lines_sync_content wf_lines_synced)
    with that have "terminated l" by (rule wf_lines_butlast_terminated [rotated])
    then have "LF \<in> set l"
      by (cases l rule: rev_cases) (auto simp: terminated_def)
    then have "line_terminator l \<noteq> []"
      by (simp add: line_terminator_eq_Nil)
    moreover from that have "l \<in> set (disk_lines (sync_content old))"
      by (rule in_set_butlastD)
    ultimately show ?thesis using all by blast
  qed
  show ?thesis
    using new read nocr_read nocr all inner by (simp add: sync_content_def)
qed

theorem synced_file_has_only_LF_terminators_witness:
  "files \<lparr>files = [''./vec-utils/Cargo.toml'' \<mapsto> crlf_content], stdout = [], effects = []\<rparr>
      ''./vec-utils/Cargo.toml'' = Some crlf_content \<and>
   sync_target ''./vec-utils/Cargo.toml''
      \<lparr>files = [''./vec-utils/Cargo.toml'' \<mapsto> crlf_content], stdout = [], effects = []\<rparr>
    = Inr \<lparr>files = [''./vec-utils/Cargo.toml'' \<mapsto> ''a'' @ [LF] @ ''b'' @ [LF] @ version_line @ ''d'' @ [LF]],
           stdout = ''./vec-utils/Cargo.toml version updated'' @ [LF],
           effects = [Wrote ''./vec-utils/Cargo.toml'', Printed ''./vec-utils/Cargo.toml version updated'']\<rparr> \<and>
   CR \<notin> set (''a'' @ [LF] @ ''b'' @ [LF] @ version_line @ ''d'' @ [LF]) \<and>
   line_terminator (disk_lines (''a'' @ [LF] @ ''b'' @ [LF] @ version_line @ ''d'' @ [LF]) ! 0) = [LF] \<and>
   line_terminator (disk_lines crlf_content ! 0) = [CR, LF]"
proof -
  let ?w = "\<lparr>files = [''./vec-utils/Cargo.toml'' \<mapsto> crlf_content], stdout = [], effects = []\<rparr>"
  let ?new = "''a'' @ [LF] @ ''b'' @ [LF] @ version_line @ ''d'' @ [LF]"
  let ?w' = "\<lparr>files = [''./vec-utils/Cargo.toml'' \<mapsto> ?new],
           stdout = ''./vec-utils/Cargo.toml version updated'' @ [LF],
           effects = [Wrote ''./vec-utils/Cargo.toml'', Printed ''./vec-utils/Cargo.toml version updated'']\<rparr>"
  have a: "files ?w ''./vec-utils/Cargo.toml'' = Some crlf_content"
    by simp
  have b: "sync_target ''./vec-utils/Cargo.toml'' ?w = Inr ?w'"
    by (simp add: sync_target_def read_data_def setitem_def write_data_def print_def confirmation_def
      version_line_def VERSION_def char_defs crlf_content_def)
  have c: "disk_lines ?new ! 0 \<in> set (butlast (disk_lines ?new))"
    by (simp add: version_line_def VERSION_def char_defs)
  have d: "line_terminator (disk_lines crlf_content ! 0) = [CR, LF]"
    by (simp add: crlf_content_def line_terminator_def char_defs)
  from synced_file_has_only_LF_terminators [OF a b]
  obtain new where n: "files ?w' ''./vec-utils/Cargo.toml'' = Some new"
    and n1: "CR \<notin> set new"
    and n2: "\<forall>l \<in> set (butlast (disk_lines new)). line_terminator l = [LF]"
    by blast
  from n have "new = ?new"
    by simp
  with n1 n2 c have "CR \<notin> set ?new \<and> line_terminator (disk_lines ?new ! 0) = [LF]"
    by blast
  with a b d show ?thesis
    by blast
qed



end
